theory Spec2Isabelle
  imports
    Main
    "HOL-Library.Multiset"
    "HOL-Library.Char_ord"
    "HOL-Library.List_Lexorder"
    "HOL-Library.Product_Lexorder"
    "HOL-Library.AList"
begin

section \<open>Clustering of reads by molecular barcode (stpipeline/common/clustering.py)\<close>

subsection \<open>Errors and the process-wide random source\<close>

text \<open>
  Every exception the module can raise is a value. \<open>AssertionError\<close> is what the
  \<^verbatim>\<open>assert\<close> at the entry of \<^verbatim>\<open>extractMolecularBarcodes\<close> raises (the
  specification calls it InvalidRangeError); \<open>LengthMismatchError\<close> is the failure of the
  distance primitive; \<open>KeyError\<close> and \<open>IndexError\<close> are the failures of dictionary and
  list access and of \<^verbatim>\<open>random.choice\<close> on an empty list.
\<close>

datatype error = AssertionError | LengthMismatchError | KeyError | IndexError

text \<open>
  \<^verbatim>\<open>random\<close> is global state: the sequence of draws still to come. A call of
  \<^verbatim>\<open>random.choice(xs)\<close> uses the next draw to index \<open>xs\<close> and leaves the rest; on
  an empty list it raises IndexError. Every member of \<open>xs\<close> is the result for some draw.
\<close>

type_synonym rand = "nat \<Rightarrow> nat"

definition random_choice :: "rand \<Rightarrow> 'a list \<Rightarrow> error + ('a \<times> rand)" where
  "random_choice g xs =
     (if xs = [] then Inl IndexError
      else Inr (xs ! (g 0 mod length xs), (\<lambda>n. g (Suc n))))"

subsection \<open>extractMolecularBarcodes\<close>

text \<open>
  A read is a tuple whose first component is the sequence. \<^verbatim>\<open>s[a:b]\<close> for
  \<open>0 \<le> a\<close> and \<open>0 \<le> b\<close> (the only slices the function takes, after its assertion):
  Python cuts the slice at the end of the string.
\<close>

definition slice :: "'a list \<Rightarrow> int \<Rightarrow> int \<Rightarrow> 'a list" where
  "slice s a b = take (nat (b - a)) (drop (nat a) s)"

text \<open>
  The first loop: the list \<^verbatim>\<open>molecular_barcodes\<close> of (barcode, read) and the
  \<^verbatim>\<open>defaultdict(int)\<close> of occurrences, a total function that is 0 off its keys.
\<close>

fun extract_loop ::
  "int \<Rightarrow> int \<Rightarrow> (string \<times> 'a) list \<Rightarrow> (string \<times> (string \<times> 'a)) list \<times> (string \<Rightarrow> int)
     \<Rightarrow> (string \<times> (string \<times> 'a)) list \<times> (string \<Rightarrow> int)" where
  "extract_loop s e [] acc = acc"
| "extract_loop s e (read # reads) (molecular_barcodes, counts) =
     (let mc = slice (fst read) s e
      in extract_loop s e reads
           (molecular_barcodes @ [(mc, read)], counts(mc := counts mc + 1)))"

text \<open>\<^verbatim>\<open>mc[0].count("N")\<close>\<close>

definition count_N :: "string \<Rightarrow> int" where
  "count_N mc = int (length (filter (\<lambda>c. c = CHR ''N'') mc))"

text \<open>The second loop: one (barcode, read, occurrences, number of Ns) per entry.\<close>

definition count_list_loop ::
  "(string \<times> (string \<times> 'a)) list \<Rightarrow> (string \<Rightarrow> int)
     \<Rightarrow> (string \<times> (string \<times> 'a) \<times> int \<times> int) list" where
  "count_list_loop molecular_barcodes counts =
     map (\<lambda>mc. (fst mc, snd mc, counts (fst mc), count_N (fst mc))) molecular_barcodes"

text \<open>The sort key \<^verbatim>\<open>lambda x: (x[0], -x[2], x[3])\<close>; tuples compare lexicographically.\<close>

definition extract_key :: "string \<times> 'r \<times> int \<times> int \<Rightarrow> string \<times> int \<times> int" where
  "extract_key x = (fst x, - fst (snd (snd x)), snd (snd (snd x)))"

definition extractMolecularBarcodes ::
  "(string \<times> 'a) list \<Rightarrow> int \<Rightarrow> int \<Rightarrow> error + (string \<times> (string \<times> 'a) \<times> int \<times> int) list" where
  "extractMolecularBarcodes reads mc_start_position mc_end_position =
     (if \<not> (mc_end_position > mc_start_position \<and> mc_start_position \<ge> 0)
      then Inl AssertionError
      else
        let (molecular_barcodes, counts) =
              extract_loop mc_start_position mc_end_position reads ([], (\<lambda>_. 0))
        in Inr (sort_key extract_key (count_list_loop molecular_barcodes counts)))"

subsection \<open>The distance primitive\<close>

text \<open>
  Modelled from the spec: \<^verbatim>\<open>stpipeline.common.distance.hamming_distance\<close> is imported
  by the module and is not among the sources. The specification gives its contract:
  "\<^verbatim>\<open>hamming_distance(a, b) -> integer\<close>; fails with LengthMismatchError if
  \<^verbatim>\<open>len(a) != len(b)\<close>", the distance being the "count of positions at which two
  equal-length strings differ".
\<close>

definition mismatches :: "'c list \<Rightarrow> 'c list \<Rightarrow> nat" where
  "mismatches a b = length (filter (\<lambda>(x, y). x \<noteq> y) (zip a b))"

definition hamming_distance :: "string \<Rightarrow> string \<Rightarrow> error + int" where
  "hamming_distance a b =
     (if length a \<noteq> length b then Inl LengthMismatchError else Inr (int (mismatches a b)))"

subsection \<open>countMolecularBarcodesClustersNaive\<close>

text \<open>
  An input record is a tuple whose first two components are the barcode and the read.
  \<^verbatim>\<open>clusters_dict\<close> is a dictionary from cluster number to the list of its members,
  kept here as an association list in insertion order, which for the keys 0, 1, 2, ...
  inserted one after the other is also the order in which \<^verbatim>\<open>iteritems\<close> visits them.
\<close>

type_synonym 'r mb = "string \<times> 'r"

type_synonym 'r clusters_dict = "(nat \<times> 'r mb list) list"

text \<open>The body of the first loop, on \<^verbatim>\<open>(i, molecular_barcode)\<close> of \<^verbatim>\<open>enumerate\<close>.\<close>

definition naive_step ::
  "int \<Rightarrow> 'r clusters_dict \<times> nat \<Rightarrow> nat \<times> 'r mb \<Rightarrow> error + ('r clusters_dict \<times> nat)" where
  "naive_step allowed_mismatches st im =
     (let (clusters_dict, nclusters) = st; (i, molecular_barcode) = im in
      if i = 0 then Inr (AList.update nclusters [molecular_barcode] clusters_dict, nclusters)
      else
        (case map_of clusters_dict nclusters of
           None \<Rightarrow> Inl KeyError
         | Some members \<Rightarrow>
             if members = [] then Inl IndexError
             else
               (case hamming_distance (fst (last members)) (fst molecular_barcode) of
                  Inl err \<Rightarrow> Inl err
                | Inr d \<Rightarrow>
                    if d \<le> allowed_mismatches
                    then Inr (AList.update nclusters (members @ [molecular_barcode]) clusters_dict,
                              nclusters)
                    else Inr (AList.update (nclusters + 1) [molecular_barcode] clusters_dict,
                              nclusters + 1))))"

fun naive_loop ::
  "int \<Rightarrow> 'r clusters_dict \<times> nat \<Rightarrow> (nat \<times> 'r mb) list \<Rightarrow> error + ('r clusters_dict \<times> nat)" where
  "naive_loop t st [] = Inr st"
| "naive_loop t st (im # ims) =
     (case naive_step t st im of Inl err \<Rightarrow> Inl err | Inr st' \<Rightarrow> naive_loop t st' ims)"

text \<open>The second loop, over the items of \<^verbatim>\<open>clusters_dict\<close>, appending to \<^verbatim>\<open>clusters\<close>.\<close>

fun naive_filter ::
  "rand \<Rightarrow> int \<Rightarrow> 'r clusters_dict \<Rightarrow> 'r list \<Rightarrow> error + 'r list" where
  "naive_filter g min_cluster_size [] clusters = Inr clusters"
| "naive_filter g min_cluster_size ((k, members) # items) clusters =
     (if int (length members) \<ge> min_cluster_size
      then (case random_choice g members of
              Inl err \<Rightarrow> Inl err
            | Inr (member, g') \<Rightarrow>
                naive_filter g' min_cluster_size items (clusters @ [snd member]))
      else naive_filter g min_cluster_size items (clusters @ map snd members))"

definition countMolecularBarcodesClustersNaive ::
  "rand \<Rightarrow> 'r mb list \<Rightarrow> int \<Rightarrow> int \<Rightarrow> error + 'r list" where
  "countMolecularBarcodesClustersNaive g molecular_barcodes allowed_mismatches min_cluster_size =
     (case naive_loop allowed_mismatches ([], 0) (enumerate 0 (sort_key fst molecular_barcodes)) of
        Inl err \<Rightarrow> Inl err
      | Inr (clusters_dict, nclusters) \<Rightarrow> naive_filter g min_cluster_size clusters_dict [])"

text \<open>
  The naive clusterer in the words of its description: a sweep over the sorted records
  that keeps the sealed clusters and the current one, compares each record with the last
  member of the current cluster, and afterwards resolves every cluster by its size.
\<close>

fun described_sweep ::
  "int \<Rightarrow> 'r mb list list \<Rightarrow> 'r mb list \<Rightarrow> 'r mb list \<Rightarrow> error + 'r mb list list" where
  "described_sweep t sealed current [] = Inr (sealed @ [current])"
| "described_sweep t sealed current (x # xs) =
     (case hamming_distance (fst (last current)) (fst x) of
        Inl err \<Rightarrow> Inl err
      | Inr d \<Rightarrow>
          if d \<le> t then described_sweep t sealed (current @ [x]) xs
          else described_sweep t (sealed @ [current]) [x] xs)"

definition described_clusters :: "int \<Rightarrow> 'r mb list \<Rightarrow> error + 'r mb list list" where
  "described_clusters t mbs =
     (case sort_key fst mbs of [] \<Rightarrow> Inr [] | x # xs \<Rightarrow> described_sweep t [] [x] xs)"

fun described_resolve :: "rand \<Rightarrow> int \<Rightarrow> 'r mb list list \<Rightarrow> error + 'r list" where
  "described_resolve g m [] = Inr []"
| "described_resolve g m (c # cs) =
     (if int (length c) \<ge> m
      then (case random_choice g c of
              Inl err \<Rightarrow> Inl err
            | Inr (member, g') \<Rightarrow>
                (case described_resolve g' m cs of
                   Inl err \<Rightarrow> Inl err
                 | Inr out \<Rightarrow> Inr (snd member # out)))
      else (case described_resolve g m cs of
              Inl err \<Rightarrow> Inl err
            | Inr out \<Rightarrow> Inr (map snd c @ out)))"

subsection \<open>Chains of adjacent elements\<close>

text \<open>
  The clusters of a sweep that joins each element to its predecessor when the two are
  related by \<open>R\<close>: the maximal runs of the list in which every two neighbours are related.
\<close>

fun chain :: "('a \<Rightarrow> 'a \<Rightarrow> bool) \<Rightarrow> 'a list \<Rightarrow> 'a list list" where
  "chain R [] = []"
| "chain R [x] = [[x]]"
| "chain R (x # y # zs) =
     (if R x y
      then (case chain R (y # zs) of [] \<Rightarrow> [[x]] | c # cs \<Rightarrow> (x # c) # cs)
      else [x] # chain R (y # zs))"

text \<open>Two records are close when their barcodes differ in at most \<open>t\<close> positions.\<close>

definition close_mb :: "int \<Rightarrow> 'r mb \<Rightarrow> 'r mb \<Rightarrow> bool" where
  "close_mb t x y = (int (mismatches (fst x) (fst y)) \<le> t)"

text \<open>All barcodes of the batch have one length.\<close>

definition same_length :: "'r mb list \<Rightarrow> bool" where
  "same_length mbs = list_all (\<lambda>x. list_all (\<lambda>y. length (fst x) = length (fst y)) mbs) mbs"

text \<open>Joining a prefix to the first cluster; neighbouring barcodes of one length.\<close>

fun glue :: "'a list \<Rightarrow> 'a list list \<Rightarrow> 'a list list" where
  "glue p [] = [p]"
| "glue p (c # cs) = (p @ c) # cs"

fun adjacent_lengths :: "'r mb list \<Rightarrow> bool" where
  "adjacent_lengths (x # y # zs) =
     (length (fst x) = length (fst y) \<and> adjacent_lengths (y # zs))"
| "adjacent_lengths _ = True"

text \<open>
  The clusters the first loop of the naive clusterer leaves in \<^verbatim>\<open>clusters_dict\<close>,
  in the order of their keys.
\<close>

definition naive_clusters :: "int \<Rightarrow> 'r mb list \<Rightarrow> error + 'r mb list list" where
  "naive_clusters t mbs =
     (case naive_loop t ([], 0) (enumerate 0 (sort_key fst mbs)) of
        Inl err \<Rightarrow> Inl err
      | Inr (clusters_dict, nclusters) \<Rightarrow> Inr (map snd clusters_dict))"

subsection \<open>The counting trie\<close>

text \<open>
  Modelled from the spec: \<^verbatim>\<open>counttrie.CountTrie\<close> is a library the module imports; its
  code is not among the sources. The specification gives the capability: insert, remove,
  "\<^verbatim>\<open>count(key)\<close> -> occurrences inserted", which "reflects the number of inserts since the
  last remove", and "\<^verbatim>\<open>find_within_distance(key, max_mismatches, allow_indels)\<close> -> set of
  matching keys currently indexed (matches include the key itself if still present)", where
  "\<^verbatim>\<open>allow_indels\<close> toggles whether the neighborhood search tolerates insertions/deletions
  in addition to substitutions; when false, neighborhood search is equivalent to
  Hamming-distance lookup restricted to equal-length keys". The index is kept as the list of
  its keys with their counts, in order of first insertion; a search enumerates its matches
  in that order (the contract fixes no order, and only the order of the reads of a cluster
  that is emitted whole depends on it).
\<close>

fun edit_distance :: "'c list \<Rightarrow> 'c list \<Rightarrow> nat" where
  "edit_distance [] ys = length ys"
| "edit_distance (x # xs) [] = Suc (length xs)"
| "edit_distance (x # xs) (y # ys) =
     min (min (Suc (edit_distance xs (y # ys))) (Suc (edit_distance (x # xs) ys)))
         ((if x = y then 0 else 1) + edit_distance xs ys)"

definition within_distance :: "bool \<Rightarrow> int \<Rightarrow> string \<Rightarrow> string \<Rightarrow> bool" where
  "within_distance allow_indels t a b =
     (if allow_indels then int (edit_distance a b) \<le> t
      else length a = length b \<and> int (mismatches a b) \<le> t)"

type_synonym count_trie = "(string \<times> nat) list"

definition trie_add :: "count_trie \<Rightarrow> string \<Rightarrow> count_trie" where
  "trie_add trie k =
     (case map_of trie k of None \<Rightarrow> trie @ [(k, 1)] | Some c \<Rightarrow> AList.update k (Suc c) trie)"

definition trie_remove :: "count_trie \<Rightarrow> string \<Rightarrow> count_trie" where
  "trie_remove trie k = AList.delete k trie"

definition trie_get_count :: "count_trie \<Rightarrow> string \<Rightarrow> nat" where
  "trie_get_count trie k = (case map_of trie k of None \<Rightarrow> 0 | Some c \<Rightarrow> c)"

definition find_equal_length_optimized :: "count_trie \<Rightarrow> string \<Rightarrow> int \<Rightarrow> bool \<Rightarrow> string list" where
  "find_equal_length_optimized trie q t allow_indels =
     filter (within_distance allow_indels t q) (map fst trie)"

subsection \<open>countMolecularBarcodesPrefixtrie\<close>

text \<open>
  \<^verbatim>\<open>reads\<close> is a \<^verbatim>\<open>defaultdict(list)\<close>: reading a missing key inserts it with the empty
  list; \<^verbatim>\<open>del\<close> of a missing key raises KeyError.
\<close>

type_synonym 'r reads_map = "(string \<times> 'r list) list"

definition dd_get :: "'r reads_map \<Rightarrow> string \<Rightarrow> 'r list \<times> 'r reads_map" where
  "dd_get reads k =
     (case map_of reads k of None \<Rightarrow> ([], reads @ [(k, [])]) | Some v \<Rightarrow> (v, reads))"

definition dict_del :: "'r reads_map \<Rightarrow> string \<Rightarrow> error + 'r reads_map" where
  "dict_del reads k =
     (case map_of reads k of None \<Rightarrow> Inl KeyError | Some v \<Rightarrow> Inr (AList.delete k reads))"

text \<open>The first loop: every barcode into the trie, every read into the map.\<close>

fun trie_build :: "'r mb list \<Rightarrow> count_trie \<times> 'r reads_map \<Rightarrow> count_trie \<times> 'r reads_map" where
  "trie_build [] st = st"
| "trie_build (molecular_barcode # mbs) (trie, reads) =
     (let (v, reads') = dd_get reads (fst molecular_barcode)
      in trie_build mbs
           (trie_add trie (fst molecular_barcode),
            AList.update (fst molecular_barcode) (v @ [snd molecular_barcode]) reads'))"

text \<open>The inner loop, over the barcodes of \<^verbatim>\<open>cluster\<close>.\<close>

fun consume ::
  "string list \<Rightarrow> count_trie \<times> 'r reads_map \<times> nat \<times> 'r list
     \<Rightarrow> error + (count_trie \<times> 'r reads_map \<times> nat \<times> 'r list)" where
  "consume [] st = Inr st"
| "consume (clustered_mc # cluster) (trie, reads, size_cluster, original_reads) =
     (let size_cluster' = size_cluster + trie_get_count trie clustered_mc;
          (v, reads') = dd_get reads clustered_mc;
          original_reads' = original_reads @ v
      in case dict_del reads' clustered_mc of
           Inl err \<Rightarrow> Inl err
         | Inr reads'' \<Rightarrow>
             consume cluster
               (trie_remove trie clustered_mc, reads'', size_cluster', original_reads'))"

text \<open>The body of the second loop, and the loop.\<close>

definition trie_iter ::
  "int \<Rightarrow> int \<Rightarrow> bool \<Rightarrow> count_trie \<times> 'r reads_map \<times> 'r list \<times> rand \<Rightarrow> 'r mb
     \<Rightarrow> error + (count_trie \<times> 'r reads_map \<times> 'r list \<times> rand)" where
  "trie_iter allowed_mismatches min_cluster_size allow_indels st molecular_barcode =
     (let (trie, reads, clusters, g) = st;
          cluster = find_equal_length_optimized trie (fst molecular_barcode)
                      allowed_mismatches allow_indels
      in case consume cluster (trie, reads, 0, []) of
           Inl err \<Rightarrow> Inl err
         | Inr (trie', reads', size_cluster, original_reads) \<Rightarrow>
             if int size_cluster \<ge> min_cluster_size \<and> length original_reads > 0
             then (case random_choice g original_reads of
                     Inl err \<Rightarrow> Inl err
                   | Inr (read, g') \<Rightarrow> Inr (trie', reads', clusters @ [read], g'))
             else Inr (trie', reads', clusters @ original_reads, g))"

fun trie_loop ::
  "int \<Rightarrow> int \<Rightarrow> bool \<Rightarrow> count_trie \<times> 'r reads_map \<times> 'r list \<times> rand \<Rightarrow> 'r mb list
     \<Rightarrow> error + (count_trie \<times> 'r reads_map \<times> 'r list \<times> rand)" where
  "trie_loop t m indels st [] = Inr st"
| "trie_loop t m indels st (mb # mbs) =
     (case trie_iter t m indels st mb of
        Inl err \<Rightarrow> Inl err
      | Inr st' \<Rightarrow> trie_loop t m indels st' mbs)"

definition trie_start :: "rand \<Rightarrow> 'r mb list \<Rightarrow> count_trie \<times> 'r reads_map \<times> 'r list \<times> rand" where
  "trie_start g molecular_barcodes =
     (let (trie, reads) = trie_build molecular_barcodes ([], []) in (trie, reads, [], g))"

definition countMolecularBarcodesPrefixtrie ::
  "rand \<Rightarrow> 'r mb list \<Rightarrow> int \<Rightarrow> int \<Rightarrow> bool \<Rightarrow> error + 'r list" where
  "countMolecularBarcodesPrefixtrie g molecular_barcodes allowed_mismatches min_cluster_size
       allow_indels =
     (case trie_loop allowed_mismatches min_cluster_size allow_indels
             (trie_start g molecular_barcodes) molecular_barcodes of
        Inl err \<Rightarrow> Inl err
      | Inr (trie, reads, clusters, g') \<Rightarrow> Inr clusters)"

text \<open>
  What one iteration of the second loop gathers, kept for every iteration in turn: the
  summed count and the gathered reads.
\<close>

fun trie_clusters ::
  "int \<Rightarrow> bool \<Rightarrow> count_trie \<times> 'r reads_map \<Rightarrow> 'r mb list \<Rightarrow> error + (nat \<times> 'r list) list" where
  "trie_clusters t indels st [] = Inr []"
| "trie_clusters t indels (trie, reads) (mb # mbs) =
     (case consume (find_equal_length_optimized trie (fst mb) t indels) (trie, reads, 0, []) of
        Inl err \<Rightarrow> Inl err
      | Inr (trie', reads', size_cluster, original_reads) \<Rightarrow>
          (case trie_clusters t indels (trie', reads') mbs of
             Inl err \<Rightarrow> Inl err
           | Inr cs \<Rightarrow> Inr ((size_cluster, original_reads) # cs)))"

text \<open>The reads the map holds for a barcode, and a map or trie without a set of barcodes.\<close>

definition reads_of :: "'r reads_map \<Rightarrow> string \<Rightarrow> 'r list" where
  "reads_of reads k = (case map_of reads k of None \<Rightarrow> [] | Some v \<Rightarrow> v)"

definition without :: "string list \<Rightarrow> (string \<times> 'v) list \<Rightarrow> (string \<times> 'v) list" where
  "without ks al = filter (\<lambda>kv. fst kv \<notin> set ks) al"

section \<open>Properties\<close>

text \<open>
  C8: extractMolecularBarcodes fails exactly when the offsets violate
  \<open>end > start \<ge> 0\<close>; the failure is the assertion at the entry of the function (the
  specification's InvalidRangeError), so the failing call has no result at all, and for
  offsets that satisfy the precondition the call returns a list.
\<close>

theorem extract_fails_iff_invalid_range:
  "(extractMolecularBarcodes reads s e = Inl AssertionError \<longleftrightarrow> \<not> (e > s \<and> s \<ge> 0))
   \<and> ((\<exists>err. extractMolecularBarcodes reads s e = Inl err) \<longleftrightarrow> \<not> (e > s \<and> s \<ge> 0))
   \<and> ((\<exists>recs. extractMolecularBarcodes reads s e = Inr recs) \<longleftrightarrow> (e > s \<and> s \<ge> 0))"
  by (auto simp: extractMolecularBarcodes_def Let_def split: prod.splits)

subsection \<open>The naive clusterer is the described sweep\<close>

lemma upd_enum_last:
  "k = n + length xs \<Longrightarrow> AList.update k v (enumerate n (xs @ [y])) = enumerate n (xs @ [v])"
  by (induction xs arbitrary: n) (auto simp: enumerate_append_eq)

lemma upd_enum_new:
  "k = n + length xs \<Longrightarrow> AList.update k v (enumerate n xs) = enumerate n (xs @ [v])"
  by (induction xs arbitrary: n) (auto simp: enumerate_append_eq)

lemma map_of_enum_last:
  "k = n + length xs \<Longrightarrow> map_of (enumerate n (xs @ [y])) k = Some y"
  by (induction xs arbitrary: n) (auto simp: enumerate_append_eq)

lemma naive_loop_sweep:
  "k > 0 \<Longrightarrow> current \<noteq> [] \<Longrightarrow>
   naive_loop t (enumerate 0 (sealed @ [current]), length sealed) (enumerate k xs)
   = (case described_sweep t sealed current xs of Inl err \<Rightarrow> Inl err
      | Inr cs \<Rightarrow> Inr (enumerate 0 cs, length cs - 1))"
proof (induction xs arbitrary: k sealed current)
  case Nil
  then show ?case by simp
next
  case (Cons x xs)
  have m: "map_of (enumerate 0 (sealed @ [current])) (length sealed) = Some current"
    using map_of_enum_last[where n=0 and xs=sealed and y=current] by simp
  have u1: "\<And>v. AList.update (length sealed) v (enumerate 0 (sealed @ [current]))
              = enumerate 0 (sealed @ [v])"
    using upd_enum_last[where n=0 and xs=sealed and y=current] by simp
  have u2: "\<And>v. AList.update (Suc (length sealed)) v (enumerate 0 (sealed @ [current]))
              = enumerate 0 ((sealed @ [current]) @ [v])"
    using upd_enum_new[where n=0 and xs="sealed @ [current]"] by simp
  show ?case
  proof (cases "hamming_distance (fst (last current)) (fst x)")
    case (Inl e)
    with Cons.prems m show ?thesis by (simp add: naive_step_def)
  next
    case (Inr d)
    show ?thesis
    proof (cases "d \<le> t")
      case True
      with Inr Cons.prems m u1 Cons.IH[of "Suc k" "current @ [x]" sealed] show ?thesis
        by (simp add: naive_step_def)
    next
      case False
      with Inr Cons.prems m u2 Cons.IH[of "Suc k" "[x]" "sealed @ [current]"] show ?thesis
        by (simp add: naive_step_def)
    qed
  qed
qed

lemma naive_filter_resolve:
  "naive_filter g m (enumerate n cs) acc =
   (case described_resolve g m cs of Inl err \<Rightarrow> Inl err | Inr out \<Rightarrow> Inr (acc @ out))"
proof (induction cs arbitrary: g n acc)
  case Nil
  then show ?case by simp
next
  case (Cons c cs)
  then show ?case
    by (auto split: sum.splits prod.splits)
qed

lemma naive_loop_clusters:
  "naive_loop t ([], 0) (enumerate 0 (sort_key fst mbs)) =
     (case described_clusters t mbs of Inl err \<Rightarrow> Inl err
      | Inr cs \<Rightarrow> Inr (enumerate 0 cs, length cs - 1))"
proof (cases "sort_key fst mbs")
  case Nil
  then show ?thesis by (simp add: described_clusters_def)
next
  case (Cons x xs)
  have "naive_loop t ([], 0) (enumerate 0 (x # xs))
        = naive_loop t (enumerate 0 ([] @ [[x]]), length ([]::'a mb list list)) (enumerate 1 xs)"
    by (simp add: naive_step_def)
  also have "\<dots> = (case described_sweep t [] [x] xs of Inl err \<Rightarrow> Inl err
      | Inr cs \<Rightarrow> Inr (enumerate 0 cs, length cs - 1))"
    by (rule naive_loop_sweep) simp_all
  finally show ?thesis using Cons by (simp add: described_clusters_def)
qed

lemma naive_described:
  "countMolecularBarcodesClustersNaive g mbs t m =
     (case described_clusters t mbs of Inl err \<Rightarrow> Inl err | Inr cs \<Rightarrow> described_resolve g m cs)"
  by (simp add: countMolecularBarcodesClustersNaive_def naive_loop_clusters
      naive_filter_resolve[where acc="[]", simplified] split: sum.splits)

text \<open>
  C3: countMolecularBarcodesClustersNaive is this algorithm: sort the records by barcode;
  sweep the sorted sequence with a current cluster, comparing each record's barcode with
  the barcode of the last member of the current cluster, appending the record when the
  distance is at most \<open>max_mismatches\<close> and otherwise sealing the cluster and starting a
  new one with the record; then every cluster with at least \<open>min_cluster_size\<close> members
  contributes the read of one member, chosen by the random source, and every smaller
  cluster contributes the reads of all its members. The two agree on every input, the
  failures of the distance primitive included.
\<close>

theorem naive_is_described_sweep:
  "countMolecularBarcodesClustersNaive g mbs t m =
     (case described_clusters t mbs of
        Inl err \<Rightarrow> Inl err
      | Inr cs \<Rightarrow> described_resolve g m cs)"
  by (rule naive_described)

subsection \<open>Chains\<close>

lemma chain_Nil_iff [simp]: "chain R xs = [] \<longleftrightarrow> xs = []"
  by (induction R xs rule: chain.induct) (auto split: list.splits)

lemma chain_Cons_Cons:
  "chain R (x # y # zs) =
     (if R x y then (x # hd (chain R (y # zs))) # tl (chain R (y # zs))
      else [x] # chain R (y # zs))"
  by (cases "chain R (y # zs)") auto

lemma concat_chain [simp]: "concat (chain R xs) = xs"
  by (induction R xs rule: chain.induct) (auto split: list.splits)

lemma chain_nonempty: "[] \<notin> set (chain R xs)"
  by (induction R xs rule: chain.induct) (auto split: list.splits)

lemma hd_hd_chain: "hd (hd (chain R (x # xs))) = x"
  by (cases xs) (auto split: list.splits)


lemma sweep_chain:
  "current \<noteq> [] \<Longrightarrow>
   described_sweep t sealed current xs =
     (if adjacent_lengths (last current # xs)
      then Inr (sealed @ glue (butlast current) (chain (close_mb t) (last current # xs)))
      else Inl LengthMismatchError)"
proof (induction xs arbitrary: sealed current)
  case Nil
  then show ?case by simp
next
  case (Cons x xs)
  show ?case
  proof (cases "length (fst (last current)) = length (fst x)")
    case False
    then show ?thesis by (simp add: hamming_distance_def)
  next
    case True
    show ?thesis
    proof (cases "close_mb t (last current) x")
      case c: True
      have "described_sweep t sealed current (x # xs) = described_sweep t sealed (current @ [x]) xs"
        using True c by (simp add: hamming_distance_def close_mb_def)
      also have "\<dots> = (if adjacent_lengths (x # xs)
      then Inr (sealed @ glue current (chain (close_mb t) (x # xs)))
      else Inl LengthMismatchError)"
        using Cons.IH[of "current @ [x]" sealed] by simp
      finally show ?thesis using True c Cons.prems
        by (cases "chain (close_mb t) (x # xs)") (auto simp: chain_Cons_Cons)
    next
      case c: False
      have "described_sweep t sealed current (x # xs) = described_sweep t (sealed @ [current]) [x] xs"
        using True c by (simp add: hamming_distance_def close_mb_def)
      also have "\<dots> = (if adjacent_lengths (x # xs)
      then Inr ((sealed @ [current]) @ glue [] (chain (close_mb t) (x # xs)))
      else Inl LengthMismatchError)"
        using Cons.IH[of "[x]" "sealed @ [current]"] by simp
      finally show ?thesis using True c Cons.prems
        by (cases "chain (close_mb t) (x # xs)") (auto simp: chain_Cons_Cons)
    qed
  qed
qed

lemma described_clusters_chain:
  "described_clusters t mbs =
     (if adjacent_lengths (sort_key fst mbs) then Inr (chain (close_mb t) (sort_key fst mbs))
      else Inl LengthMismatchError)"
proof (cases "sort_key fst mbs")
  case Nil
  then show ?thesis by (simp add: described_clusters_def)
next
  case (Cons x xs)
  then show ?thesis 
    using sweep_chain[of "[x]" t "[]" xs]
    by (cases "chain (close_mb t) (x # xs)") (auto simp: described_clusters_def)
qed

lemma adjacent_lengths_Cons:
  "adjacent_lengths (x # xs) \<longleftrightarrow> (\<forall>y\<in>set xs. length (fst y) = length (fst x))"
proof (induction xs arbitrary: x)
  case Nil
  then show ?case by simp
next
  case (Cons y ys)
  show ?case unfolding adjacent_lengths.simps Cons.IH by auto
qed

lemma adjacent_lengths_iff:
  "adjacent_lengths xs \<longleftrightarrow> (\<forall>x\<in>set xs. \<forall>y\<in>set xs. length (fst x) = length (fst y))"
proof (cases xs)
  case Nil
  then show ?thesis by simp
next
  case (Cons x ys)
  show ?thesis unfolding Cons adjacent_lengths_Cons
  proof
    assume a: "\<forall>y\<in>set ys. length (fst y) = length (fst x)"
    show "\<forall>u\<in>set (x # ys). \<forall>v\<in>set (x # ys). length (fst u) = length (fst v)"
    proof (intro ballI)
      fix u v assume "u \<in> set (x # ys)" "v \<in> set (x # ys)"
      then have "length (fst u) = length (fst x)" "length (fst v) = length (fst x)"
        using a by auto
      then show "length (fst u) = length (fst v)" by simp
    qed
  next
    assume b: "\<forall>u\<in>set (x # ys). \<forall>v\<in>set (x # ys). length (fst u) = length (fst v)"
    show "\<forall>y\<in>set ys. length (fst y) = length (fst x)"
    proof
      fix y assume "y \<in> set ys"
      then have "y \<in> set (x # ys)" "x \<in> set (x # ys)" by simp_all
      with b show "length (fst y) = length (fst x)" by blast
    qed
  qed
qed

lemma adjacent_lengths_sort: "adjacent_lengths (sort_key fst mbs) \<longleftrightarrow> same_length mbs"
  unfolding adjacent_lengths_iff same_length_def list_all_iff set_sort ..

lemma subset_add_mset: "(A::'a multiset) \<subseteq># B \<Longrightarrow> A \<subseteq># add_mset x B"
  by (simp add: subseteq_mset_def le_SucI)

lemma chain_mono_aux:
  assumes "\<And>x y. R1 x y \<Longrightarrow> R2 x y"
  shows "(\<forall>c\<in>set (chain R1 xs). \<exists>c'\<in>set (chain R2 xs). mset c \<subseteq># mset c')
         \<and> (xs \<noteq> [] \<longrightarrow> mset (hd (chain R1 xs)) \<subseteq># mset (hd (chain R2 xs)))"
proof (induction xs rule: induct_list012)
  case 1
  then show ?case by simp
next
  case (2 x)
  then show ?case by simp
next
  case (3 x y zs)
  obtain a1 r1 where c1: "chain R1 (y # zs) = a1 # r1" by (cases "chain R1 (y # zs)") auto
  obtain a2 r2 where c2: "chain R2 (y # zs) = a2 # r2" by (cases "chain R2 (y # zs)") auto
  have ih1: "\<forall>c\<in>set (a1 # r1). \<exists>c'\<in>set (a2 # r2). mset c \<subseteq># mset c'"
    and ih2: "mset a1 \<subseteq># mset a2"
    using 3 c1 c2 by simp_all
  have up: "\<And>c. c \<in> set (a1 # r1) \<Longrightarrow> \<exists>c'\<in>set ((x # a2) # r2). mset c \<subseteq># mset c'"
  proof -
    fix c assume "c \<in> set (a1 # r1)"
    then obtain c' where c': "c' \<in> set (a2 # r2)" "mset c \<subseteq># mset c'" using ih1 by blast
    show "\<exists>c'\<in>set ((x # a2) # r2). mset c \<subseteq># mset c'"
    proof (cases "c' = a2")
      case True
      then have "mset c \<subseteq># mset (x # a2)" using c'(2)
        by (simp add: subset_add_mset)
      then show ?thesis by auto
    next
      case False
      then show ?thesis using c' by auto
    qed
  qed
  consider "R1 x y" "R2 x y" | "\<not> R1 x y" "R2 x y" | "\<not> R1 x y" "\<not> R2 x y"
    using assms by blast
  then show ?case
  proof cases
    case 1
    then show ?thesis using c1 c2 ih2 up by auto
  next
    case 2
    then show ?thesis using c1 c2 up by auto
  next
    case 3
    then show ?thesis using c1 c2 ih1 by auto
  qed
qed

lemma chain_mono:
  assumes "\<And>x y. R1 x y \<Longrightarrow> R2 x y" "c \<in> set (chain R1 xs)"
  shows "\<exists>c'\<in>set (chain R2 xs). mset c \<subseteq># mset c'"
  using chain_mono_aux[of R1 R2 xs] assms by blast

lemma chain_first_member: "chain R (y # zs) = a # r \<Longrightarrow> y \<in> set a"
  using hd_hd_chain[of R y zs] chain_nonempty[of R "y # zs"]
  by (cases a) auto

lemma chain_sep:
  fixes key :: "'a \<Rightarrow> 'k::linorder"
  assumes refl: "\<And>x y. key x = key y \<Longrightarrow> R x y"
  shows "sorted (map key xs) \<Longrightarrow>
         sorted_wrt (\<lambda>c c'. \<forall>u\<in>set c. \<forall>v\<in>set c'. key u < key v) (chain R xs)"
proof (induction xs rule: induct_list012)
  case 1
  then show ?case by simp
next
  case (2 x)
  then show ?case by simp
next
  case (3 x y zs)
  obtain a r where c: "chain R (y # zs) = a # r" by (cases "chain R (y # zs)") auto
  have ya: "y \<in> set a" using c by (rule chain_first_member)
  have ih: "sorted_wrt (\<lambda>c c'. \<forall>u\<in>set c. \<forall>v\<in>set c'. key u < key v) (a # r)"
    using 3 c by simp
  have xy: "key x \<le> key y" and xall: "\<forall>v\<in>set (y # zs). key y \<le> key v"
    using "3.prems" by auto
  have cc: "set (y # zs) = set a \<union> \<Union> (set ` set r)"
    using arg_cong[OF c, of "\<lambda>C. set (concat C)"] by simp
  show ?case
  proof (cases "R x y")
    case True
    have "\<forall>c'\<in>set r. \<forall>v\<in>set c'. key x < key v"
      using ih ya xy by fastforce
    then show ?thesis using True c ih by auto
  next
    case False
    then have "key x \<noteq> key y" using refl by blast
    then have "key x < key y" using xy by simp
    then have "\<forall>v\<in>set (y # zs). key x < key v" using xall by fastforce
    then have "\<forall>c'\<in>set (a # r). \<forall>v\<in>set c'. key x < key v" using cc by auto
    then show ?thesis using False c ih by auto
  qed
qed

lemma filter_sep:
  fixes key :: "'a \<Rightarrow> 'k::linorder"
  shows "sorted_wrt (\<lambda>c c'. \<forall>u\<in>set c. \<forall>v\<in>set c'. key u < key v) C \<Longrightarrow> c \<in> set C \<Longrightarrow>
         filter (\<lambda>r. key r \<in> key ` set c) (concat C) = c"
proof (induction C)
  case Nil
  then show ?case by simp
next
  case (Cons c1 C)
  show ?case
  proof (cases "c = c1")
    case True
    have "filter (\<lambda>r. key r \<in> key ` set c1) (concat C) = []"
      using Cons.prems(1) by (fastforce simp: filter_empty_conv)
    moreover have "filter (\<lambda>r. key r \<in> key ` set c1) c1 = c1"
      by (simp add: filter_id_conv)
    ultimately show ?thesis using True by simp
  next
    case False
    then have cin: "c \<in> set C" using Cons.prems by simp
    have "filter (\<lambda>r. key r \<in> key ` set c) c1 = []"
      using Cons.prems(1) cin by (fastforce simp: filter_empty_conv)
    then show ?thesis using Cons cin by simp
  qed
qed

lemma chain_member_filter:
  fixes key :: "'a \<Rightarrow> 'k::linorder"
  assumes "\<And>x y. key x = key y \<Longrightarrow> R x y" "sorted (map key xs)" "c \<in> set (chain R xs)"
  shows "mset c = filter_mset (\<lambda>r. key r \<in> key ` set c) (mset xs)"
proof -
  have "filter (\<lambda>r. key r \<in> key ` set c) (concat (chain R xs)) = c"
    by (rule filter_sep[OF chain_sep[OF assms(1) assms(2)] assms(3)])
  then have "filter (\<lambda>r. key r \<in> key ` set c) xs = c" by simp
  then show ?thesis by (metis mset_filter)
qed

lemma chain_map:
  assumes "\<And>x y. R x y = R' (key x) (key y)"
  shows "map (map key) (chain R xs) = chain R' (map key xs)"
proof (induction xs rule: induct_list012)
  case (3 x y zs)
  then show ?case using assms by (cases "chain R (y # zs)") (auto split: list.splits)
qed simp_all

lemma chain_cong:
  "(\<And>x y. x \<in> set xs \<Longrightarrow> y \<in> set xs \<Longrightarrow> R x y = R' x y) \<Longrightarrow> chain R xs = chain R' xs"
proof (induction xs rule: induct_list012)
  case (3 x y zs)
  then show ?case by (auto split: list.splits)
qed simp_all

lemma chain_by_keys:
  fixes key :: "'a \<Rightarrow> 'k::linorder"
  assumes refl: "\<And>x y. key x = key y \<Longrightarrow> R x y"
    and nat: "\<And>x y. R x y = R' (key x) (key y)"
    and s: "sorted (map key xs)"
  shows "map mset (chain R xs)
         = map (\<lambda>K. filter_mset (\<lambda>r. key r \<in> set K) (mset xs)) (chain R' (map key xs))"
proof -
  have "map mset (chain R xs)
        = map (\<lambda>c. filter_mset (\<lambda>r. key r \<in> set (map key c)) (mset xs)) (chain R xs)"
    using chain_member_filter[of key R xs, OF refl s] by (intro map_cong) auto
  also have "\<dots> = map (\<lambda>K. filter_mset (\<lambda>r. key r \<in> set K) (mset xs)) (map (map key) (chain R xs))"
    by (simp add: comp_def)
  finally show ?thesis using chain_map[of R R' key xs, OF nat] by simp
qed

lemma sorted_keys_unique:
  fixes key :: "'a \<Rightarrow> 'k::linorder"
  assumes "mset xs = mset ys" "sorted (map key xs)" "sorted (map key ys)"
  shows "map key xs = map key ys"
proof -
  have "mset (map key xs) = mset (map key ys)" using assms(1) by (metis mset_map)
  then show ?thesis using assms(2,3)
    by (metis properties_for_sort)
qed

lemma chain_perm:
  fixes key :: "'a \<Rightarrow> 'k::linorder"
  assumes refl: "\<And>x y. key x = key y \<Longrightarrow> R x y"
    and nat: "\<And>x y. R x y = R' (key x) (key y)"
    and "mset xs = mset ys"
  shows "map mset (chain R (sort_key key xs)) = map mset (chain R (sort_key key ys))"
proof -
  have k: "map key (sort_key key xs) = map key (sort_key key ys)"
    by (rule sorted_keys_unique) (simp_all add: assms(3))
  show ?thesis
    using chain_by_keys[of key R R' "sort_key key xs", OF refl nat]
          chain_by_keys[of key R R' "sort_key key ys", OF refl nat] k assms(3)
    by simp
qed

lemma chain_never: "chain (\<lambda>x y. False) xs = map (\<lambda>x. [x]) xs"
  by (induction xs rule: induct_list012) simp_all

subsection \<open>The clusters of the naive sweep\<close>

lemma mismatches_same [simp]: "mismatches a a = 0"
  by (induction a) (auto simp: mismatches_def)

lemma mismatches_zero_iff: "length a = length b \<Longrightarrow> mismatches a b = 0 \<longleftrightarrow> a = b"
  by (induction a b rule: list_induct2) (auto simp: mismatches_def)

lemma same_length_set: "same_length mbs \<longleftrightarrow> (\<forall>x\<in>set mbs. \<forall>y\<in>set mbs. length (fst x) = length (fst y))"
  by (simp add: same_length_def list_all_iff)

lemma same_length_mset: "mset mbs = mset mbs' \<Longrightarrow> same_length mbs = same_length mbs'"
  using mset_eq_setD[of mbs mbs'] by (simp add: same_length_set)

lemma naive_clusters_chain:
  "naive_clusters t mbs =
     (if same_length mbs then Inr (chain (close_mb t) (sort_key fst mbs))
      else Inl LengthMismatchError)"
  by (simp add: naive_clusters_def naive_loop_clusters described_clusters_chain
      adjacent_lengths_sort)

lemma close_mb_neg: "t < 0 \<Longrightarrow> close_mb t = (\<lambda>x y. False)"
  by (auto simp: close_mb_def fun_eq_iff)

lemma chain_close_perm:
  assumes "mset mbs = mset mbs'"
  shows "mset (map mset (chain (close_mb t) (sort_key fst mbs)))
         = mset (map mset (chain (close_mb t) (sort_key fst mbs')))"
proof (cases "t < 0")
  case True
  have "\<And>xs::'a mb list. mset (map mset (map (\<lambda>x. [x]) (sort_key fst xs))) = image_mset (\<lambda>x. {#x#}) (mset xs)"
    by (simp add: comp_def)
  then show ?thesis using True assms by (simp add: close_mb_neg chain_never)
next
  case False
  have "map mset (chain (close_mb t) (sort_key fst mbs))
        = map mset (chain (close_mb t) (sort_key fst mbs'))"
  proof (rule chain_perm[where R'="\<lambda>a b. int (mismatches a b) \<le> t"])
    show "\<And>x y. fst x = fst y \<Longrightarrow> close_mb t x y" using False by (simp add: close_mb_def)
    show "\<And>x y. close_mb t x y = (int (mismatches (fst x) (fst y)) \<le> t)" by (simp add: close_mb_def)
    show "mset mbs = mset mbs'" by (rule assms)
  qed
  then show ?thesis by simp
qed

lemma naive_clusters_perm:
  assumes "mset mbs = mset mbs'"
  shows "map_sum id (\<lambda>cs. mset (map mset cs)) (naive_clusters t mbs)
         = map_sum id (\<lambda>cs. mset (map mset cs)) (naive_clusters t mbs')"
  using chain_close_perm[OF assms, of t] same_length_mset[OF assms]
  by (simp add: naive_clusters_chain)

lemma naive_clusters_mono:
  assumes "t1 \<le> t2" "naive_clusters t1 mbs = Inr cs1" "c \<in> set cs1"
  shows "\<exists>cs2. naive_clusters t2 mbs = Inr cs2 \<and> (\<exists>c'\<in>set cs2. mset c \<subseteq># mset c')"
proof -
  have sl: "same_length mbs" and cs1: "cs1 = chain (close_mb t1) (sort_key fst mbs)"
    using assms(2) by (auto simp: naive_clusters_chain split: if_splits)
  have "\<exists>c'\<in>set (chain (close_mb t2) (sort_key fst mbs)). mset c \<subseteq># mset c'"
    using assms(1,3) cs1 by (intro chain_mono[where ?R1.0="close_mb t1"]) (auto simp: close_mb_def)
  then show ?thesis using sl by (simp add: naive_clusters_chain)
qed

end
